theory Spec2Isabelle
  imports Main
begin

section \<open>Runtime failures\<close>

text \<open>
  A Go run-time panic is a value: an index or a slice bound out of range, or the
  explicit \<^verbatim>\<open>panic("invalid scene operation type")\<close> of the operation switches.
\<close>

datatype panic = IndexOutOfRange | SliceBoundsOutOfRange | InvalidSceneOpType

definition in_range :: "int \<Rightarrow> 'a list \<Rightarrow> bool" where
  "in_range i xs = (0 \<le> i \<and> i < int (length xs))"

section \<open>Index-stable mutation primitives\<close>

text \<open>
  Modelled from the spec: \<^verbatim>\<open>SwapDeleteMany\<close>, \<^verbatim>\<open>SwapInsertMany\<close> and \<^verbatim>\<open>CopyIdxs\<close> are
  called by \<^verbatim>\<open>scene.go\<close> and defined outside it. The spec (4.1) fixes: a removal
  moves the last element into the vacated slot and drops the last slot; a bulk removal is processed so that a removal never disturbs an index
  still to be removed, which the model does by removing from the highest index to the
  lowest; the bulk insertion replays those removals in reverse, hence from the lowest
  index to the highest, each index with the value at its position in the list of
  values; both fail only on an index out of range. The indices are Go \<^verbatim>\<open>int\<close>s, so a
  negative index is out of range.
\<close>

definition SwapDelete :: "'a list \<Rightarrow> int \<Rightarrow> panic + 'a list" where
  "SwapDelete xs i =
     (if in_range i xs then Inr (butlast (xs[nat i := last xs])) else Inl IndexOutOfRange)"

fun swap_delete_each :: "'a list \<Rightarrow> int list \<Rightarrow> panic + 'a list" where
  "swap_delete_each xs [] = Inr xs"
| "swap_delete_each xs (i # idxs) =
     (case SwapDelete xs i of Inl e \<Rightarrow> Inl e | Inr ys \<Rightarrow> swap_delete_each ys idxs)"

definition SwapDeleteMany :: "'a list \<Rightarrow> int list \<Rightarrow> panic + 'a list" where
  "SwapDeleteMany xs idxs = swap_delete_each xs (rev (sort idxs))"

definition SwapInsert :: "'a list \<Rightarrow> int \<Rightarrow> 'a \<Rightarrow> panic + 'a list" where
  "SwapInsert xs i v =
     (if in_range i xs then Inr (xs[nat i := v] @ [xs ! nat i])
      else if i = int (length xs) then Inr (xs @ [v])
      else Inl IndexOutOfRange)"

fun swap_insert_each :: "'a list \<Rightarrow> (int \<times> 'a) list \<Rightarrow> panic + 'a list" where
  "swap_insert_each xs [] = Inr xs"
| "swap_insert_each xs ((i, v) # ps) =
     (case SwapInsert xs i v of Inl e \<Rightarrow> Inl e | Inr ys \<Rightarrow> swap_insert_each ys ps)"

definition SwapInsertMany :: "'a list \<Rightarrow> int list \<Rightarrow> 'a list \<Rightarrow> panic + 'a list" where
  "SwapInsertMany xs idxs vals = swap_insert_each xs (sort_key fst (zip idxs vals))"

definition CopyIdxs :: "'a list \<Rightarrow> 'a list \<Rightarrow> int list \<Rightarrow> panic + 'a list" where
  "CopyIdxs dst src idxs =
     (if \<forall>i \<in> set idxs. in_range i src then Inr (dst @ map (\<lambda>i. src ! nat i) idxs)
      else Inl IndexOutOfRange)"


section \<open>Object model\<close>

text \<open>
  The declarations of \<^verbatim>\<open>Path\<close>, \<^verbatim>\<open>Building\<close>, \<^verbatim>\<open>TextBox\<close>, \<^verbatim>\<open>Object\<close>,
  \<^verbatim>\<open>ObjectCollection\<close> and \<^verbatim>\<open>ObjectSelection\<close> are made outside \<^verbatim>\<open>scene.go\<close>;
  their fields are taken from the way \<^verbatim>\<open>scene.go\<close> uses them. The history engine never
  looks inside a path, a building or a text box, so the three element types are type
  parameters \<open>'p\<close>, \<open>'b\<close>, \<open>'t\<close>. The kind of an \<^verbatim>\<open>Object\<close> is one of the five kinds the
  source constructs, or the kind of the zero value \<^verbatim>\<open>Object{}\<close>, which the spec calls None.
\<close>

datatype ObjectType =
  TypeNone | TypePathStart | TypePathEnd | TypePath | TypeBuilding | TypeTextBox

datatype Object = Object ObjectType int

definition emptyObject :: Object where
  "emptyObject = Object TypeNone 0"

record ('p, 'b, 't) ObjectCollection =
  Paths :: "'p list"
  Buildings :: "'b list"
  TextBoxes :: "'t list"

definition emptyCollection :: "('p, 'b, 't) ObjectCollection" where
  "emptyCollection = \<lparr>Paths = [], Buildings = [], TextBoxes = []\<rparr>"

record PathSel =
  Idx :: int
  Start :: bool
  End :: bool

text \<open>
  A selection holds the three index lists the source reads, and the cached bounding
  rectangle that \<^verbatim>\<open>recomputeBounds\<close> writes (the source calls it for its effect on the
  selection it then returns). The rectangle type is the parameter \<open>'r\<close>; its zero value
  is \<open>0\<close>.
\<close>

record 'r ObjectSelection =
  PathIdxs :: "PathSel list"
  BuildingIdxs :: "int list"
  TextBoxIdxs :: "int list"
  SelBounds :: 'r

definition emptySelection :: "('r::zero) ObjectSelection" where
  "emptySelection = \<lparr>PathIdxs = [], BuildingIdxs = [], TextBoxIdxs = [], SelBounds = 0\<rparr>"

text \<open>
  Modelled from the spec: \<^verbatim>\<open>FullPathIdxs\<close>, \<^verbatim>\<open>AnyPathIdxs\<close>, \<^verbatim>\<open>recomputeBounds\<close> and
  \<^verbatim>\<open>Range\<close> are defined outside \<^verbatim>\<open>scene.go\<close>. The spec (3, 4.2) gives the full path
  indices as those with both flags set and the any path indices as every index present,
  and has the bounds recomputed from the geometry of the referenced objects: that
  geometry is the parameter \<open>rb\<close>, and \<open>recomputeBounds\<close> stores its result in the
  selection. \<open>Range a b\<close> is the list of the integers from \<open>a\<close> up to \<open>b - 1\<close>.
\<close>

definition FullPathIdxs :: "'r ObjectSelection \<Rightarrow> int list" where
  "FullPathIdxs sel = map Idx (filter (\<lambda>e. Start e \<and> End e) (PathIdxs sel))"

definition AnyPathIdxs :: "'r ObjectSelection \<Rightarrow> int list" where
  "AnyPathIdxs sel = map Idx (PathIdxs sel)"

definition recomputeBounds ::
  "('r ObjectSelection \<Rightarrow> ('p, 'b, 't) ObjectCollection \<Rightarrow> 'r) \<Rightarrow>
   'r ObjectSelection \<Rightarrow> ('p, 'b, 't) ObjectCollection \<Rightarrow> 'r ObjectSelection" where
  "recomputeBounds rb sel col = sel\<lparr>SelBounds := rb sel col\<rparr>"

definition Range :: "int \<Rightarrow> int \<Rightarrow> int list" where
  "Range a b = [a..b - 1]"

section \<open>Scene operations\<close>

definition SceneOpAdd :: string where "SceneOpAdd = ''add''"
definition SceneOpDelete :: string where "SceneOpDelete = ''delete''"
definition SceneOpModify :: string where "SceneOpModify = ''modify''"

record ('p, 'b, 't, 'r) sceneOp =
  Type :: string
  Sel :: "'r ObjectSelection"
  Old :: "('p, 'b, 't) ObjectCollection"
  New :: "('p, 'b, 't) ObjectCollection"

text \<open>
  \<^verbatim>\<open>Scene\<close> embeds \<^verbatim>\<open>ObjectCollection\<close>, so the scene record extends the collection
  record; \<open>ObjectCollection.truncate s\<close> is \<^verbatim>\<open>s.ObjectCollection\<close>.
\<close>

record ('p, 'b, 't, 'r) Scene = "('p, 'b, 't) ObjectCollection" +
  history :: "('p, 'b, 't, 'r) sceneOp list"
  historyPos :: int
  savedHistoryPos :: int
  Hovered :: Object
  wasModified :: bool

definition and_then :: "panic + 'a \<Rightarrow> ('a \<Rightarrow> panic + 'b) \<Rightarrow> panic + 'b" where
  "and_then r f = (case r of Inl e \<Rightarrow> Inl e | Inr x \<Rightarrow> f x)"

text \<open>
  The loop \<^verbatim>\<open>for i, idx := range idxs { xs[idx] = vals[i] }\<close> of the modify branches. Both
  index expressions can panic.
\<close>

fun assign_each :: "'a list \<Rightarrow> int list \<Rightarrow> 'a list \<Rightarrow> panic + 'a list" where
  "assign_each xs [] vals = Inr xs"
| "assign_each xs (idx # idxs) [] = Inl IndexOutOfRange"
| "assign_each xs (idx # idxs) (v # vals) =
     (if in_range idx xs then assign_each (xs[nat idx := v]) idxs vals
      else Inl IndexOutOfRange)"

text \<open>The slice expression \<^verbatim>\<open>xs[:len(xs)-n]\<close> of the undo of an Add.\<close>

definition drop_last :: "'a list \<Rightarrow> nat \<Rightarrow> panic + 'a list" where
  "drop_last xs n =
     (if n \<le> length xs then Inr (take (length xs - n) xs) else Inl SliceBoundsOutOfRange)"

definition sceneOp_do ::
  "('p, 'b, 't, 'r) sceneOp \<Rightarrow> ('p, 'b, 't, 'r) Scene \<Rightarrow> panic + ('p, 'b, 't, 'r) Scene" where
  "sceneOp_do op s =
     (if Type op = SceneOpAdd then
        Inr (s\<lparr>Paths := Paths s @ Paths (New op),
               Buildings := Buildings s @ Buildings (New op),
               TextBoxes := TextBoxes s @ TextBoxes (New op)\<rparr>)
      else if Type op = SceneOpDelete then
        and_then (SwapDeleteMany (Paths s) (FullPathIdxs (Sel op))) (\<lambda>ps.
        and_then (SwapDeleteMany (Buildings s) (BuildingIdxs (Sel op))) (\<lambda>bs.
        and_then (SwapDeleteMany (TextBoxes s) (TextBoxIdxs (Sel op))) (\<lambda>ts.
          Inr (s\<lparr>Paths := ps, Buildings := bs, TextBoxes := ts\<rparr>))))
      else if Type op = SceneOpModify then
        and_then (assign_each (Paths s) (AnyPathIdxs (Sel op)) (Paths (New op))) (\<lambda>ps.
        and_then (assign_each (Buildings s) (BuildingIdxs (Sel op)) (Buildings (New op))) (\<lambda>bs.
        and_then (assign_each (TextBoxes s) (TextBoxIdxs (Sel op)) (TextBoxes (New op))) (\<lambda>ts.
          Inr (s\<lparr>Paths := ps, Buildings := bs, TextBoxes := ts\<rparr>))))
      else Inl InvalidSceneOpType)"

text \<open>
  In the Add branch of \<^verbatim>\<open>redo\<close> the building and text box indices are the range of the
  appended elements; the path indices are \<^verbatim>\<open>n + i\<close> where \<^verbatim>\<open>n := len(s.Paths)\<close> is read
  after the append.
\<close>

definition sceneOp_redo ::
  "('r ObjectSelection \<Rightarrow> ('p, 'b, 't) ObjectCollection \<Rightarrow> 'r) \<Rightarrow> ('p, 'b, 't, 'r::zero) sceneOp \<Rightarrow>
   ('p, 'b, 't, 'r) Scene \<Rightarrow> panic + (('p, 'b, 't, 'r) Scene \<times> 'r ObjectSelection)" where
  "sceneOp_redo rb op s =
     (if Type op = SceneOpAdd then
        (let s1 = s\<lparr>Paths := Paths s @ Paths (New op),
                    Buildings := Buildings s @ Buildings (New op),
                    TextBoxes := TextBoxes s @ TextBoxes (New op)\<rparr>;
             newSel = emptySelection
               \<lparr>BuildingIdxs :=
                  Range (int (length (Buildings s1)) - int (length (Buildings (New op))))
                        (int (length (Buildings s1))),
                TextBoxIdxs :=
                  Range (int (length (TextBoxes s1)) - int (length (TextBoxes (New op))))
                        (int (length (TextBoxes s1)))\<rparr>;
             n = int (length (Paths s1));
             newSel = newSel
               \<lparr>PathIdxs := PathIdxs newSel @
                  map (\<lambda>i. \<lparr>Idx = n + int i, Start = True, End = True\<rparr>)
                      [0..<length (Paths (New op))]\<rparr>
         in Inr (s1, recomputeBounds rb newSel (ObjectCollection.truncate s1)))
      else if Type op = SceneOpDelete then
        and_then (SwapDeleteMany (Paths s) (FullPathIdxs (Sel op))) (\<lambda>ps.
        and_then (SwapDeleteMany (Buildings s) (BuildingIdxs (Sel op))) (\<lambda>bs.
        and_then (SwapDeleteMany (TextBoxes s) (TextBoxIdxs (Sel op))) (\<lambda>ts.
          Inr (s\<lparr>Paths := ps, Buildings := bs, TextBoxes := ts\<rparr>, emptySelection))))
      else if Type op = SceneOpModify then
        and_then (assign_each (Paths s) (AnyPathIdxs (Sel op)) (Paths (New op))) (\<lambda>ps.
        and_then (assign_each (Buildings s) (BuildingIdxs (Sel op)) (Buildings (New op))) (\<lambda>bs.
        and_then (assign_each (TextBoxes s) (TextBoxIdxs (Sel op)) (TextBoxes (New op))) (\<lambda>ts.
          (let s1 = s\<lparr>Paths := ps, Buildings := bs, TextBoxes := ts\<rparr>
           in Inr (s1, recomputeBounds rb (Sel op) (ObjectCollection.truncate s1))))))
      else Inl InvalidSceneOpType)"

definition sceneOp_undo ::
  "('r ObjectSelection \<Rightarrow> ('p, 'b, 't) ObjectCollection \<Rightarrow> 'r) \<Rightarrow> ('p, 'b, 't, 'r::zero) sceneOp \<Rightarrow>
   ('p, 'b, 't, 'r) Scene \<Rightarrow> panic + (('p, 'b, 't, 'r) Scene \<times> 'r ObjectSelection)" where
  "sceneOp_undo rb op s =
     (if Type op = SceneOpAdd then
        and_then (drop_last (Paths s) (length (Paths (New op)))) (\<lambda>ps.
        and_then (drop_last (Buildings s) (length (Buildings (New op)))) (\<lambda>bs.
        and_then (drop_last (TextBoxes s) (length (TextBoxes (New op)))) (\<lambda>ts.
          Inr (s\<lparr>Paths := ps, Buildings := bs, TextBoxes := ts\<rparr>, emptySelection))))
      else if Type op = SceneOpDelete then
        and_then (SwapInsertMany (Paths s) (FullPathIdxs (Sel op)) (Paths (Old op))) (\<lambda>ps.
        and_then (SwapInsertMany (Buildings s) (BuildingIdxs (Sel op)) (Buildings (Old op))) (\<lambda>bs.
        and_then (SwapInsertMany (TextBoxes s) (TextBoxIdxs (Sel op)) (TextBoxes (Old op))) (\<lambda>ts.
          Inr (s\<lparr>Paths := ps, Buildings := bs, TextBoxes := ts\<rparr>, Sel op))))
      else if Type op = SceneOpModify then
        and_then (assign_each (Paths s) (AnyPathIdxs (Sel op)) (Paths (Old op))) (\<lambda>ps.
        and_then (assign_each (Buildings s) (BuildingIdxs (Sel op)) (Buildings (Old op))) (\<lambda>bs.
        and_then (assign_each (TextBoxes s) (TextBoxIdxs (Sel op)) (TextBoxes (Old op))) (\<lambda>ts.
          (let s1 = s\<lparr>Paths := ps, Buildings := bs, TextBoxes := ts\<rparr>
           in Inr (s1, recomputeBounds rb (Sel op) (ObjectCollection.truncate s1))))))
      else Inl InvalidSceneOpType)"

section \<open>Scene modifiers\<close>

text \<open>
  \<^verbatim>\<open>s.history[:s.historyPos]\<close> panics when the position is negative or beyond the
  slice; the model takes the length of the history as that limit.
\<close>

definition doSceneOp ::
  "('p, 'b, 't, 'r) Scene \<Rightarrow> ('p, 'b, 't, 'r) sceneOp \<Rightarrow> panic + ('p, 'b, 't, 'r) Scene" where
  "doSceneOp s op =
     (if 0 \<le> historyPos s \<and> historyPos s \<le> int (length (history s)) then
        (let s1 = s\<lparr>history := take (nat (historyPos s)) (history s)\<rparr>
         in and_then (sceneOp_do op s1) (\<lambda>s2.
              (let s3 = s2\<lparr>history := history s2 @ [op]\<rparr>;
                   s4 = s3\<lparr>historyPos := historyPos s3 + 1\<rparr>
               in Inr (s4\<lparr>Hovered := emptyObject\<rparr>))))
      else Inl SliceBoundsOutOfRange)"

definition AddPath :: "('p, 'b, 't, 'r::zero) Scene \<Rightarrow> 'p \<Rightarrow> panic + ('p, 'b, 't, 'r) Scene" where
  "AddPath s path =
     doSceneOp s \<lparr>Type = SceneOpAdd, Sel = emptySelection, Old = emptyCollection,
                  New = emptyCollection\<lparr>Paths := [path]\<rparr>\<rparr>"

definition AddBuilding :: "('p, 'b, 't, 'r::zero) Scene \<Rightarrow> 'b \<Rightarrow> panic + ('p, 'b, 't, 'r) Scene" where
  "AddBuilding s building =
     doSceneOp s \<lparr>Type = SceneOpAdd, Sel = emptySelection, Old = emptyCollection,
                  New = emptyCollection\<lparr>Buildings := [building]\<rparr>\<rparr>"

definition AddTextBox :: "('p, 'b, 't, 'r::zero) Scene \<Rightarrow> 't \<Rightarrow> panic + ('p, 'b, 't, 'r) Scene" where
  "AddTextBox s tb =
     doSceneOp s \<lparr>Type = SceneOpAdd, Sel = emptySelection, Old = emptyCollection,
                  New = emptyCollection\<lparr>TextBoxes := [tb]\<rparr>\<rparr>"

definition AddObjects ::
  "('p, 'b, 't, 'r::zero) Scene \<Rightarrow> ('p, 'b, 't) ObjectCollection \<Rightarrow> panic + ('p, 'b, 't, 'r) Scene" where
  "AddObjects s col =
     doSceneOp s \<lparr>Type = SceneOpAdd, Sel = emptySelection, Old = emptyCollection, New = col\<rparr>"

definition DeleteObjects ::
  "('p, 'b, 't, 'r) Scene \<Rightarrow> 'r ObjectSelection \<Rightarrow> panic + ('p, 'b, 't, 'r) Scene" where
  "DeleteObjects s sel =
     and_then (CopyIdxs [] (Buildings s) (BuildingIdxs sel)) (\<lambda>bs.
     and_then (CopyIdxs [] (Paths s) (FullPathIdxs sel)) (\<lambda>ps.
     and_then (CopyIdxs [] (TextBoxes s) (TextBoxIdxs sel)) (\<lambda>ts.
       doSceneOp s \<lparr>Type = SceneOpDelete, Sel = sel,
                    Old = \<lparr>Paths = ps, Buildings = bs, TextBoxes = ts\<rparr>,
                    New = emptyCollection\<rparr>)))"

definition ModifyObjects ::
  "('p, 'b, 't, 'r) Scene \<Rightarrow> 'r ObjectSelection \<Rightarrow> ('p, 'b, 't) ObjectCollection \<Rightarrow>
   panic + ('p, 'b, 't, 'r) Scene" where
  "ModifyObjects s sel new =
     and_then (CopyIdxs [] (Buildings s) (BuildingIdxs sel)) (\<lambda>bs.
     and_then (CopyIdxs [] (Paths s) (AnyPathIdxs sel)) (\<lambda>ps.
     and_then (CopyIdxs [] (TextBoxes s) (TextBoxIdxs sel)) (\<lambda>ts.
       doSceneOp s \<lparr>Type = SceneOpModify, Sel = sel,
                    Old = \<lparr>Paths = ps, Buildings = bs, TextBoxes = ts\<rparr>,
                    New = new\<rparr>)))"

text \<open>
  \<^verbatim>\<open>Undo\<close> and \<^verbatim>\<open>Redo\<close> return whether they acted and hand the selection computed by the
  operation to \<^verbatim>\<open>selection.doInitSelection\<close>, which is outside this file: the model
  returns the flag, the scene and that selection.
\<close>

definition Undo ::
  "('r ObjectSelection \<Rightarrow> ('p, 'b, 't) ObjectCollection \<Rightarrow> 'r) \<Rightarrow> ('p, 'b, 't, 'r::zero) Scene \<Rightarrow>
   panic + (bool \<times> ('p, 'b, 't, 'r) Scene \<times> 'r ObjectSelection option)" where
  "Undo rb s =
     (if historyPos s > 0 then
        (let s1 = s\<lparr>historyPos := historyPos s - 1\<rparr>
         in if in_range (historyPos s1) (history s1) then
              (let op = history s1 ! nat (historyPos s1);
                   s2 = s1\<lparr>Hovered := emptyObject\<rparr>
               in and_then (sceneOp_undo rb op s2) (\<lambda>(s3, sel). Inr (True, s3, Some sel)))
            else Inl IndexOutOfRange)
      else Inr (False, s, None))"

definition Redo ::
  "('r ObjectSelection \<Rightarrow> ('p, 'b, 't) ObjectCollection \<Rightarrow> 'r) \<Rightarrow> ('p, 'b, 't, 'r::zero) Scene \<Rightarrow>
   panic + (bool \<times> ('p, 'b, 't, 'r) Scene \<times> 'r ObjectSelection option)" where
  "Redo rb s =
     (if historyPos s < int (length (history s)) then
        (if in_range (historyPos s) (history s) then
           (let op = history s ! nat (historyPos s);
                s1 = s\<lparr>historyPos := historyPos s + 1\<rparr>;
                s2 = s1\<lparr>Hovered := emptyObject\<rparr>
            in and_then (sceneOp_redo rb op s2) (\<lambda>(s3, sel). Inr (True, s3, Some sel)))
         else Inl IndexOutOfRange)
      else Inr (False, s, None))"

definition HasUndo :: "('p, 'b, 't, 'r) Scene \<Rightarrow> bool" where
  "HasUndo s = (historyPos s > 0)"

definition HasRedo :: "('p, 'b, 't, 'r) Scene \<Rightarrow> bool" where
  "HasRedo s = (historyPos s < int (length (history s)))"

definition IsModified :: "('p, 'b, 't, 'r) Scene \<Rightarrow> bool" where
  "IsModified s = (historyPos s \<noteq> savedHistoryPos s)"

definition ResetModified :: "('p, 'b, 't, 'r) Scene \<Rightarrow> ('p, 'b, 't, 'r) Scene" where
  "ResetModified s = s\<lparr>savedHistoryPos := historyPos s\<rparr>"

section \<open>Reachable scene states\<close>

text \<open>
  The states a scene goes through: it starts with an empty history at position 0 (the
  collection may already hold loaded objects) and changes by \<open>doSceneOp\<close>, \<open>Undo\<close>,
  \<open>Redo\<close>, \<open>ResetModified\<close> and the update of the hovered object.
\<close>

inductive reachable ::
  "('r ObjectSelection \<Rightarrow> ('p, 'b, 't) ObjectCollection \<Rightarrow> 'r) \<Rightarrow> ('p, 'b, 't, 'r::zero) Scene \<Rightarrow> bool"
  for rb where
  reach_init: "history s = [] \<Longrightarrow> historyPos s = 0 \<Longrightarrow> reachable rb s"
| reach_do: "reachable rb s \<Longrightarrow> doSceneOp s op = Inr s' \<Longrightarrow> reachable rb s'"
| reach_undo: "reachable rb s \<Longrightarrow> Undo rb s = Inr (b, s', sel) \<Longrightarrow> reachable rb s'"
| reach_redo: "reachable rb s \<Longrightarrow> Redo rb s = Inr (b, s', sel) \<Longrightarrow> reachable rb s'"
| reach_saved: "reachable rb s \<Longrightarrow> reachable rb (ResetModified s)"
| reach_hover: "reachable rb s \<Longrightarrow> reachable rb (s\<lparr>Hovered := h\<rparr>)"

section \<open>Example scenes\<close>

text \<open>
  Concrete scenes on which the theorems below are instantiated. Paths, buildings and
  text boxes are strings; a rectangle is an integer, and the stand-in for the geometry
  counts the objects a selection refers to.
\<close>

definition example_bounds ::
  "int ObjectSelection \<Rightarrow> (string, string, string) ObjectCollection \<Rightarrow> int" where
  "example_bounds sel col =
     int (length (PathIdxs sel) + length (BuildingIdxs sel) + length (TextBoxIdxs sel))"

definition example_scene :: "(string, string, string, int) Scene" where
  "example_scene =
     \<lparr>Paths = [''belt''], Buildings = [''miner'', ''smelter'', ''forge''],
      TextBoxes = [''note''],
      history = [], historyPos = 0, savedHistoryPos = 0,
      Hovered = Object TypeBuilding 1, wasModified = False\<rparr>"

definition add_pipe :: "(string, string, string, int) sceneOp" where
  "add_pipe = \<lparr>Type = SceneOpAdd, Sel = emptySelection, Old = emptyCollection,
               New = emptyCollection\<lparr>Paths := [''pipe'']\<rparr>\<rparr>"

definition add_lab :: "(string, string, string, int) sceneOp" where
  "add_lab = \<lparr>Type = SceneOpAdd, Sel = emptySelection, Old = emptyCollection,
              New = emptyCollection\<lparr>Buildings := [''lab'']\<rparr>\<rparr>"

definition after_add :: "(string, string, string, int) Scene" where
  "after_add = example_scene\<lparr>Paths := [''belt'', ''pipe''], history := [add_pipe],
                              historyPos := 1, Hovered := emptyObject\<rparr>"

definition after_undo :: "(string, string, string, int) Scene" where
  "after_undo = example_scene\<lparr>history := [add_pipe], Hovered := emptyObject\<rparr>"

definition after_lab :: "(string, string, string, int) Scene" where
  "after_lab = example_scene\<lparr>Buildings := [''miner'', ''smelter'', ''forge'', ''lab''],
                              history := [add_lab], historyPos := 1,
                              Hovered := emptyObject\<rparr>"

text \<open>
  An operation records a state when it is an Add, or a Delete or a Modify whose \<open>Old\<close>
  holds the values the state has at the selected indices, as \<open>DeleteObjects\<close> and
  \<open>ModifyObjects\<close> build it; the indices of a Delete are a set, without repetition.
\<close>

definition records_state ::
  "('p, 'b, 't, 'r) Scene \<Rightarrow> ('p, 'b, 't, 'r) sceneOp \<Rightarrow> bool" where
  "records_state s op =
     (Type op = SceneOpAdd
      \<or> (Type op = SceneOpDelete
          \<and> distinct (FullPathIdxs (Sel op)) \<and> distinct (BuildingIdxs (Sel op))
          \<and> distinct (TextBoxIdxs (Sel op))
          \<and> CopyIdxs [] (Paths s) (FullPathIdxs (Sel op)) = Inr (Paths (Old op))
          \<and> CopyIdxs [] (Buildings s) (BuildingIdxs (Sel op)) = Inr (Buildings (Old op))
          \<and> CopyIdxs [] (TextBoxes s) (TextBoxIdxs (Sel op)) = Inr (TextBoxes (Old op)))
      \<or> (Type op = SceneOpModify
          \<and> CopyIdxs [] (Paths s) (AnyPathIdxs (Sel op)) = Inr (Paths (Old op))
          \<and> CopyIdxs [] (Buildings s) (BuildingIdxs (Sel op)) = Inr (Buildings (Old op))
          \<and> CopyIdxs [] (TextBoxes s) (TextBoxIdxs (Sel op)) = Inr (TextBoxes (Old op))))"

definition del_op :: "(string, string, string, int) sceneOp" where
  "del_op =
     \<lparr>Type = SceneOpDelete,
      Sel = \<lparr>PathIdxs = [\<lparr>Idx = 0, Start = True, End = True\<rparr>], BuildingIdxs = [2, 0],
             TextBoxIdxs = [], SelBounds = 0\<rparr>,
      Old = \<lparr>Paths = [''belt''], Buildings = [''forge'', ''miner''], TextBoxes = []\<rparr>,
      New = emptyCollection\<rparr>"

definition after_delete :: "(string, string, string, int) Scene" where
  "after_delete = example_scene\<lparr>Paths := [], Buildings := [''smelter''], history := [del_op],
                                 historyPos := 1, Hovered := emptyObject\<rparr>"

definition delete_undone :: "(string, string, string, int) Scene" where
  "delete_undone = example_scene\<lparr>history := [del_op], Hovered := emptyObject\<rparr>"




definition after_redo :: "(string, string, string, int) Scene" where
  "after_redo = after_add"

section \<open>Hit testing\<close>



















section \<open>Loading from text\<close>

text \<open>
  A text is a list of bytes. \<open>ScanLines\<close> is the line splitting of \<^verbatim>\<open>bufio.Scanner\<close>: a
  line ends at a newline, one trailing carriage return is dropped, and data left at the
  end of the input is a last line. The reader is taken not to fail and the lines to fit
  the scanner's buffer.
\<close>

definition dropCR :: "string \<Rightarrow> string" where
  "dropCR l = (if l \<noteq> [] \<and> last l = CHR 0x0D then butlast l else l)"

fun scan_lines_from :: "string \<Rightarrow> string \<Rightarrow> string list" where
  "scan_lines_from cur [] = (if cur = [] then [] else [dropCR cur])"
| "scan_lines_from cur (c # cs) =
     (if c = CHR 0x0A then dropCR cur # scan_lines_from [] cs
      else scan_lines_from (cur @ [c]) cs)"

definition ScanLines :: "string \<Rightarrow> string list" where
  "ScanLines text = scan_lines_from [] text"

text \<open>
  The errors of the standard library that the decoder wraps, and the error value of
  the decoder.
\<close>

datatype go_error =
  InputDoesNotMatchFormat | UnexpectedEOF | UnexpectedNewline | ExpectedInteger
  | InvalidSyntax | ValueOutOfRange | OtherError string

record DecodeTextError =
  Msg :: string
  Err :: "go_error option"
  Line :: int
  Version :: int

definition tagVersion :: string where "tagVersion = ''#VERSION''"
definition textboxClass :: string where "textboxClass = ''TextBox''"

definition msgEmpty :: string where "msgEmpty = ''empty file''"
definition msgInvalidVersionLine :: string where
  "msgInvalidVersionLine =
     ''invalid first line, expected '' @ [CHR 0x27] @ ''#VERSION=x'' @ [CHR 0x27]"
definition msgInvalidVersionNumber :: string where
  "msgInvalidVersionNumber = ''invalid version, expected a positive integer''"
definition msgVersionTooHigh :: string where "msgVersionTooHigh = ''version is too high''"
definition msgInvalidPath :: string where
  "msgInvalidPath = ''invalid path line expected '' @ [CHR 0x27]
     @ ''[class] [startX] [startY] [endX] [endY]'' @ [CHR 0x27]"
definition msgInvalidBuilding :: string where
  "msgInvalidBuilding = ''invalid building line expected '' @ [CHR 0x27]
     @ ''[class] [posX] [posY] [rotation]'' @ [CHR 0x27]"
definition msgInvalidTextBox :: string where
  "msgInvalidTextBox = ''invalid textbox line expected '' @ [CHR 0x27]
     @ ''[class] [posX] [posY] [width] [height] [content]'' @ [CHR 0x27]"
definition msgInvalidClass :: string where "msgInvalidClass = ''unknown class''"

subsection \<open>The version line\<close>

text \<open>
  \<^verbatim>\<open>fmt.Sscanf(line, "#VERSION=%d", &ver)\<close>, by the rules of the standard library: the
  literal part of the format must match the input byte for byte; then white space is
  skipped, an optional sign is read, and the longest run of decimal digits and
  underscores, which must not be empty; the token must be a decimal integer (an
  underscore is a syntax error in base 10) within the 64 bits of an \<^verbatim>\<open>int\<close>. What follows
  the token on the line is not read.
\<close>

fun match_literal :: "string \<Rightarrow> string \<Rightarrow> go_error + string" where
  "match_literal [] input = Inr input"
| "match_literal (f # fs) [] = Inl UnexpectedEOF"
| "match_literal (f # fs) (c # cs) =
     (if f = c then match_literal fs cs else Inl InputDoesNotMatchFormat)"

text \<open>The white space of \<^verbatim>\<open>fmt\<close>, as UTF-8 byte sequences; a newline is not skipped.\<close>

definition space_runes :: "string list" where
  "space_runes =
     [[CHR 0x09], [CHR 0x0B], [CHR 0x0C], [CHR 0x0D], [CHR 0x20],
      [CHR 0xC2, CHR 0x85], [CHR 0xC2, CHR 0xA0], [CHR 0xE1, CHR 0x9A, CHR 0x80],
      [CHR 0xE2, CHR 0x80, CHR 0x80], [CHR 0xE2, CHR 0x80, CHR 0x81],
      [CHR 0xE2, CHR 0x80, CHR 0x82], [CHR 0xE2, CHR 0x80, CHR 0x83],
      [CHR 0xE2, CHR 0x80, CHR 0x84], [CHR 0xE2, CHR 0x80, CHR 0x85],
      [CHR 0xE2, CHR 0x80, CHR 0x86], [CHR 0xE2, CHR 0x80, CHR 0x87],
      [CHR 0xE2, CHR 0x80, CHR 0x88], [CHR 0xE2, CHR 0x80, CHR 0x89],
      [CHR 0xE2, CHR 0x80, CHR 0x8A], [CHR 0xE2, CHR 0x80, CHR 0xA8],
      [CHR 0xE2, CHR 0x80, CHR 0xA9], [CHR 0xE2, CHR 0x80, CHR 0xAF],
      [CHR 0xE2, CHR 0x81, CHR 0x9F], [CHR 0xE3, CHR 0x80, CHR 0x80]]"

definition leading_space :: "string \<Rightarrow> nat" where
  "leading_space input =
     (case find (\<lambda>r. take (length r) input = r) space_runes of
        None \<Rightarrow> 0 | Some r \<Rightarrow> length r)"

function SkipSpace :: "string \<Rightarrow> go_error + string" where
  "SkipSpace input =
     (if input = [] then Inr []
      else if hd input = CHR 0x0A then Inl UnexpectedNewline
      else if leading_space input = 0 then Inr input
      else SkipSpace (drop (leading_space input) input))"
  by pat_completeness auto
termination
  by (relation "measure length") auto

declare SkipSpace.simps [simp del]

definition is_digit :: "char \<Rightarrow> bool" where
  "is_digit c = (48 \<le> (of_char c :: nat) \<and> (of_char c :: nat) \<le> 57)"

definition digit_value :: "char \<Rightarrow> int" where
  "digit_value c = int (of_char c :: nat) - 48"

definition decimal_value :: "string \<Rightarrow> int" where
  "decimal_value ds = foldl (\<lambda>n c. 10 * n + digit_value c) 0 ds"

text \<open>\<^verbatim>\<open>strconv.ParseInt(tok, 10, 64)\<close> on a token made of an optional sign and a run.\<close>

definition ParseInt :: "string \<Rightarrow> string \<Rightarrow> go_error + int" where
  "ParseInt sign run =
     (if run = [] \<or> \<not> list_all is_digit run then Inl InvalidSyntax
      else (let v = (if sign = ''-'' then - decimal_value run else decimal_value run)
            in if v < - (2 ^ 63) \<or> 2 ^ 63 - 1 < v then Inl ValueOutOfRange else Inr v))"

definition scanInt :: "string \<Rightarrow> go_error + int" where
  "scanInt input =
     (case SkipSpace input of
        Inl e \<Rightarrow> Inl e
      | Inr rest \<Rightarrow>
          if rest = [] then Inl UnexpectedEOF
          else (let sign = (if hd rest = CHR ''+'' \<or> hd rest = CHR ''-'' then [hd rest] else []);
                    rest1 = drop (length sign) rest
                in if rest1 = [] then Inl UnexpectedEOF
                   else (let run = takeWhile (\<lambda>c. is_digit c \<or> c = CHR ''_'') rest1
                         in if run = [] then Inl ExpectedInteger else ParseInt sign run)))"

definition Sscanf_version :: "string \<Rightarrow> go_error + int" where
  "Sscanf_version line =
     (case match_literal (tagVersion @ ''='') line of
        Inl e \<Rightarrow> Inl e
      | Inr rest \<Rightarrow> scanInt rest)"



subsection \<open>The object lines\<close>

text \<open>
  The objects the decoder builds, with their fields in the order \<^verbatim>\<open>DefIdx\<close>, \<^verbatim>\<open>Start\<close>,
  \<^verbatim>\<open>End\<close> for a path, \<^verbatim>\<open>DefIdx\<close>, \<^verbatim>\<open>Pos\<close>, \<^verbatim>\<open>Rot\<close> for a building and \<^verbatim>\<open>Bounds\<close>,
  \<^verbatim>\<open>Content\<close> for a text box. The type \<open>'f\<close> stands for \<^verbatim>\<open>float32\<close>, whose arithmetic
  and text form are not modelled.
\<close>

datatype 'f Vector2 = Vector2 'f 'f
datatype 'f Rectangle = Rectangle 'f 'f 'f 'f
datatype 'f Path = Path int "'f Vector2" "'f Vector2"
datatype 'f Building = Building int "'f Vector2" int
datatype 'f TextBox = TextBox "'f Rectangle" string

text \<open>
  What the decoder calls and \<^verbatim>\<open>scene.go\<close> does not define: the two registries of
  definitions (\<^verbatim>\<open>Index\<close> returns a negative number for an unknown class),
  \<^verbatim>\<open>ParseFloat32\<close>, \<^verbatim>\<open>strconv.Unquote\<close>, and \<^verbatim>\<open>fmt.Sscanf\<close> with the formats of a path
  line and of a building line. They are the fields of a record the decoder takes as a
  parameter.
\<close>

record 'f codec =
  pathDefsIndex :: "string \<Rightarrow> int"
  buildingDefsIndex :: "string \<Rightarrow> int"
  ParseFloat32 :: "string \<Rightarrow> go_error + 'f"
  Unquote :: "string \<Rightarrow> go_error + string"
  SscanfPath :: "string \<Rightarrow> go_error + ('f \<times> 'f \<times> 'f \<times> 'f)"
  SscanfBuilding :: "string \<Rightarrow> go_error + ('f \<times> 'f \<times> int)"

text \<open>\<^verbatim>\<open>strings.Cut(s, " ")\<close> and \<^verbatim>\<open>strings.SplitN(s, " ", n)\<close>.\<close>

definition Cut :: "string \<Rightarrow> string \<times> string" where
  "Cut s = (takeWhile (\<lambda>c. c \<noteq> CHR '' '') s, drop 1 (dropWhile (\<lambda>c. c \<noteq> CHR '' '') s))"

fun SplitN :: "string \<Rightarrow> nat \<Rightarrow> string list" where
  "SplitN s 0 = []"
| "SplitN s (Suc 0) = [s]"
| "SplitN s (Suc (Suc n)) =
     (if CHR '' '' \<in> set s
      then takeWhile (\<lambda>c. c \<noteq> CHR '' '') s
           # SplitN (drop 1 (dropWhile (\<lambda>c. c \<noteq> CHR '' '') s)) (Suc n)
      else [s])"

definition and_then_float ::
  "go_error + 'a \<Rightarrow> string \<Rightarrow> int \<Rightarrow> int \<Rightarrow> ('a \<Rightarrow> DecodeTextError + 'b) \<Rightarrow>
   DecodeTextError + 'b" where
  "and_then_float r msg no ver f =
     (case r of
        Inl err \<Rightarrow> Inl \<lparr>Msg = msg, Err = Some err, Line = no, Version = ver\<rparr>
      | Inr x \<Rightarrow> f x)"

text \<open>
  The body of the loop of \<^verbatim>\<open>decodeText\<close> for a line that is not empty: the collection
  with the decoded object appended, or the error. The scratch values \<^verbatim>\<open>p\<close> and \<^verbatim>\<open>b\<close>
  that the source keeps across lines have every field written before they are appended.
\<close>

definition decode_line ::
  "'f codec \<Rightarrow> ('f Path, 'f Building, 'f TextBox, 'm) ObjectCollection_scheme \<Rightarrow> int \<Rightarrow> int \<Rightarrow>
   string \<Rightarrow> DecodeTextError + ('f Path, 'f Building, 'f TextBox, 'm) ObjectCollection_scheme" where
  "decode_line c s ver no line =
     (let class = fst (Cut line); fields = snd (Cut line) in
      if class = textboxClass then
        (let elts = SplitN fields 5 in
         if length elts \<noteq> 5 then
           Inl \<lparr>Msg = msgInvalidTextBox, Err = None, Line = no, Version = ver\<rparr>
         else
           and_then_float (ParseFloat32 c (elts ! 0)) msgInvalidTextBox no ver (\<lambda>x.
           and_then_float (ParseFloat32 c (elts ! 1)) msgInvalidTextBox no ver (\<lambda>y.
           and_then_float (ParseFloat32 c (elts ! 2)) msgInvalidTextBox no ver (\<lambda>w.
           and_then_float (ParseFloat32 c (elts ! 3)) msgInvalidTextBox no ver (\<lambda>h.
           and_then_float (Unquote c (elts ! 4)) msgInvalidTextBox no ver (\<lambda>content.
             Inr (s\<lparr>TextBoxes := TextBoxes s @ [TextBox (Rectangle x y w h) content]\<rparr>)))))))
      else if pathDefsIndex c class \<ge> 0 then
        and_then_float (SscanfPath c fields) msgInvalidPath no ver (\<lambda>(sx, sy, ex, ey).
          Inr (s\<lparr>Paths := Paths s
                 @ [Path (pathDefsIndex c class) (Vector2 sx sy) (Vector2 ex ey)]\<rparr>))
      else if buildingDefsIndex c class \<ge> 0 then
        and_then_float (SscanfBuilding c fields) msgInvalidBuilding no ver (\<lambda>(x, y, rot).
          Inr (s\<lparr>Buildings := Buildings s
                 @ [Building (buildingDefsIndex c class) (Vector2 x y) rot]\<rparr>))
      else Inl \<lparr>Msg = msgInvalidClass, Err = None, Line = no, Version = ver\<rparr>)"

text \<open>
  The loop of \<^verbatim>\<open>decodeText\<close> over the lines the scanner still holds: an empty line
  takes the \<^verbatim>\<open>continue\<close>, which skips the \<^verbatim>\<open>no++\<close> at the end of the body. The result is
  the scene as the call leaves it and the error, if any.
\<close>

fun decode_loop ::
  "'f codec \<Rightarrow> ('f Path, 'f Building, 'f TextBox, 'm) ObjectCollection_scheme \<Rightarrow> string list \<Rightarrow>
   int \<Rightarrow> int \<Rightarrow>
   ('f Path, 'f Building, 'f TextBox, 'm) ObjectCollection_scheme \<times> DecodeTextError option" where
  "decode_loop c s [] ver no = (s, None)"
| "decode_loop c s (line # lines) ver no =
     (if line = [] then decode_loop c s lines ver no
      else (case decode_line c s ver no line of
              Inl e \<Rightarrow> (s, Some e)
            | Inr s' \<Rightarrow> decode_loop c s' lines ver (no + 1)))"

definition decodeText ::
  "'f codec \<Rightarrow> ('f Path, 'f Building, 'f TextBox, 'm) ObjectCollection_scheme \<Rightarrow> string list \<Rightarrow>
   int \<Rightarrow>
   ('f Path, 'f Building, 'f TextBox, 'm) ObjectCollection_scheme \<times> DecodeTextError option" where
  "decodeText c s lines ver = decode_loop c s lines ver 2"

definition LoadFromText ::
  "'f codec \<Rightarrow> ('f Path, 'f Building, 'f TextBox, 'm) ObjectCollection_scheme \<Rightarrow> string \<Rightarrow>
   ('f Path, 'f Building, 'f TextBox, 'm) ObjectCollection_scheme \<times> DecodeTextError option" where
  "LoadFromText c s text =
     (let lines = ScanLines text;
          line = (case lines of [] \<Rightarrow> [] | l # _ \<Rightarrow> l)
      in if line = [] then (s, Some \<lparr>Msg = msgEmpty, Err = None, Line = 0, Version = 0\<rparr>)
         else (case Sscanf_version line of
                 Inl err \<Rightarrow>
                   (s, Some \<lparr>Msg = msgInvalidVersionLine, Err = Some err, Line = 1, Version = 0\<rparr>)
               | Inr ver \<Rightarrow>
                   if ver < 0 then
                     (s, Some \<lparr>Msg = msgInvalidVersionNumber, Err = None, Line = 1, Version = 0\<rparr>)
                   else if ver = 0 then decodeText c s (tl lines) ver
                   else (s, Some \<lparr>Msg = msgVersionTooHigh, Err = None, Line = 1,
                                  Version = ver\<rparr>)))"

text \<open>A codec with no definition registered, and the text of the examples.\<close>

definition no_definitions :: "int codec" where
  "no_definitions =
     \<lparr>pathDefsIndex = (\<lambda>class. - 1), buildingDefsIndex = (\<lambda>class. - 1),
      ParseFloat32 = (\<lambda>str. Inl InvalidSyntax), Unquote = (\<lambda>str. Inl InvalidSyntax),
      SscanfPath = (\<lambda>str. Inl UnexpectedEOF), SscanfBuilding = (\<lambda>str. Inl UnexpectedEOF)\<rparr>"

definition blank_then_unknown :: string where
  "blank_then_unknown = ''#VERSION=0'' @ [CHR 0x0A] @ [CHR 0x0A] @ ''foo''"

definition no_objects :: "(int Path, int Building, int TextBox) ObjectCollection" where
  "no_objects = emptyCollection"

section \<open>Swap-insert undoes swap-delete\<close>

lemma swap_delete_each_append:
  "swap_delete_each xs (is1 @ is2) =
     (case swap_delete_each xs is1 of Inl e \<Rightarrow> Inl e | Inr ys \<Rightarrow> swap_delete_each ys is2)"
  by (induction is1 arbitrary: xs) (auto split: sum.splits)

lemma SwapInsert_SwapDelete:
  assumes "in_range j zs"
  shows "SwapInsert (butlast (zs[nat j := last zs])) j (zs ! nat j) = Inr zs"
proof -
  from assms have j: "0 \<le> j" "nat j < length zs" and ne: "zs \<noteq> []"
    by (auto simp: in_range_def)
  show ?thesis
  proof (cases "nat j = length zs - 1")
    case True
    with j ne have "zs ! nat j = last zs" by (simp add: last_conv_nth)
    moreover from True j have "j = int (length zs - 1)" by simp
    ultimately show ?thesis using True ne
      by (simp add: SwapInsert_def in_range_def butlast_list_update)
  next
    case False
    with j have lt: "nat j < length zs - 1" by simp
    then have "in_range j (butlast (zs[nat j := last zs]))"
      using j by (simp add: in_range_def)
    moreover have "(butlast (zs[nat j := last zs])) ! nat j = last zs"
      using lt by (simp add: nth_butlast)
    moreover have "(butlast (zs[nat j := last zs]))[nat j := zs ! nat j] = butlast zs"
    proof -
      have "butlast zs ! nat j = zs ! nat j" using lt by (simp add: nth_butlast)
      then have "(butlast zs)[nat j := zs ! nat j] = butlast zs"
        by (metis list_update_id)
      then show ?thesis using False by (simp add: butlast_list_update)
    qed
    ultimately show ?thesis using ne by (simp add: SwapInsert_def)
  qed
qed

text \<open>Distinct indices strictly between \<open>j\<close> and \<open>n\<close> are fewer than \<open>n - j\<close>.\<close>

lemma length_le_span:
  assumes "distinct js" and "\<forall>i \<in> set js. j < i \<and> i < int n" and "j < int n"
  shows "int (length js) < int n - j"
proof -
  have "set js \<subseteq> {j + 1 ..< int n}" using assms(2) by auto
  then have "card (set js) \<le> card {j + 1 ..< int n}" by (intro card_mono) auto
  with assms(1) have "length js \<le> nat (int n - (j + 1))"
    by (simp add: distinct_card)
  with assms(3) show ?thesis by linarith
qed

text \<open>
  The heart of the inverse property, for indices in ascending order: removing them from
  the highest to the lowest leaves every position below the lowest index untouched, and
  inserting them back from the lowest to the highest rebuilds the list.
\<close>

lemma swap_roundtrip_sorted:
  assumes "sorted js" and "distinct js" and "\<forall>i \<in> set js. in_range i xs"
  shows "\<exists>ys. swap_delete_each xs (rev js) = Inr ys
           \<and> length ys = length xs - length js
           \<and> (\<forall>k. k < length ys \<and> (\<forall>i \<in> set js. int k < i) \<longrightarrow> ys ! k = xs ! k)
           \<and> swap_insert_each ys (map (\<lambda>i. (i, xs ! nat i)) js) = Inr xs"
  using assms
proof (induction js)
  case Nil
  then show ?case by simp
next
  case (Cons j js)
  from Cons.prems have srt: "sorted js" and dst: "distinct js"
    and rng: "\<forall>i \<in> set js. in_range i xs" and jr: "in_range j xs"
    by simp_all
  from Cons.prems have above: "\<forall>i \<in> set js. j < i"
    by (auto simp: le_less)
  from Cons.IH [OF srt dst rng] obtain zs where
    del: "swap_delete_each xs (rev js) = Inr zs" and
    len: "length zs = length xs - length js" and
    keep: "\<forall>k. k < length zs \<and> (\<forall>i \<in> set js. int k < i) \<longrightarrow> zs ! k = xs ! k" and
    ins: "swap_insert_each zs (map (\<lambda>i. (i, xs ! nat i)) js) = Inr xs"
    by blast
  have "\<forall>i \<in> set js. j < i \<and> i < int (length xs)"
    using above rng by (simp add: in_range_def)
  from length_le_span [OF dst this] jr have span: "int (length js) < int (length xs) - j"
    by (simp add: in_range_def)
  with jr len have jz: "in_range j zs" by (auto simp: in_range_def)
  then have j0: "0 \<le> j" and jlt: "nat j < length zs" by (auto simp: in_range_def)
  let ?ys = "butlast (zs[nat j := last zs])"
  have zj: "zs ! nat j = xs ! nat j"
    using keep jlt above j0 by simp
  have d: "swap_delete_each xs (rev (j # js)) = Inr ?ys"
    using del jz by (simp add: swap_delete_each_append SwapDelete_def)
  have l: "length ?ys = length xs - length (j # js)"
    using len by simp
  have k: "\<forall>k. k < length ?ys \<and> (\<forall>i \<in> set (j # js). int k < i) \<longrightarrow> ?ys ! k = xs ! k"
  proof (intro allI impI)
    fix k assume h: "k < length ?ys \<and> (\<forall>i \<in> set (j # js). int k < i)"
    then have "k < length zs" "k \<noteq> nat j" "\<forall>i \<in> set js. int k < i" by auto
    with h keep show "?ys ! k = xs ! k" by (simp add: nth_butlast)
  qed
  have i: "swap_insert_each ?ys (map (\<lambda>i. (i, xs ! nat i)) (j # js)) = Inr xs"
    using SwapInsert_SwapDelete [OF jz] zj ins by simp
  from d l k i show ?case by blast
qed

lemma insort_key_fst_map:
  "insort_key fst (i, f i) (map (\<lambda>i. (i, f i)) js) = map (\<lambda>i. (i, f i)) (insort i js)"
  by (induction js) auto

lemma sort_key_fst_zip:
  "sort_key fst (zip idxs (map f idxs)) = map (\<lambda>i. (i, f i)) (sort idxs)"
  by (induction idxs) (auto simp: insort_key_fst_map)

lemma SwapDeleteMany_inverse:
  assumes "distinct idxs" and "\<forall>i \<in> set idxs. in_range i xs"
  shows "\<exists>ys. SwapDeleteMany xs idxs = Inr ys
           \<and> length ys = length xs - length idxs
           \<and> SwapInsertMany ys idxs (map (\<lambda>i. xs ! nat i) idxs) = Inr xs"
proof -
  have "sorted (sort idxs)" "distinct (sort idxs)" "\<forall>i \<in> set (sort idxs). in_range i xs"
    using assms by simp_all
  from swap_roundtrip_sorted [OF this] show ?thesis
    by (auto simp: SwapDeleteMany_def SwapInsertMany_def sort_key_fst_zip)
qed

text \<open>
  Claim C5. Deleting a set of valid indices (a list without repetition, in any order)
  with \<open>SwapDeleteMany\<close> succeeds, and \<open>SwapInsertMany\<close> on the result, with the same
  indices and the values that \<open>CopyIdxs\<close> took from the original list at those indices,
  gives back the original list, every position included.
\<close>

theorem SwapInsertMany_SwapDeleteMany:
  assumes "distinct idxs" and "\<forall>i \<in> set idxs. in_range i xs"
  shows "\<exists>ys vals. SwapDeleteMany xs idxs = Inr ys \<and> CopyIdxs [] xs idxs = Inr vals
           \<and> SwapInsertMany ys idxs vals = Inr xs"
  using SwapDeleteMany_inverse [OF assms] assms(2) by (auto simp: CopyIdxs_def)

theorem SwapInsertMany_SwapDeleteMany_witness:
  "distinct [1, 3 :: int] \<and> in_range 1 ''abcde'' \<and> in_range 3 ''abcde''
   \<and> SwapDeleteMany ''abcde'' [1, 3] = Inr ''aec''
   \<and> CopyIdxs [] ''abcde'' [1, 3] = Inr ''bd''
   \<and> SwapInsertMany ''aec'' [1, 3] ''bd'' = Inr ''abcde''"
proof -
  have d: "distinct [1, 3 :: int]" by simp
  have r: "\<forall>i \<in> set [1, 3 :: int]. in_range i ''abcde''" by (simp add: in_range_def)
  have del: "SwapDeleteMany ''abcde'' [1, 3] = Inr ''aec''"
    by (simp add: SwapDeleteMany_def SwapDelete_def in_range_def)
  have cp: "CopyIdxs [] ''abcde'' [1, 3] = Inr ''bd''"
    by (simp add: CopyIdxs_def in_range_def)
  from SwapInsertMany_SwapDeleteMany [OF d r] del cp
  have "SwapInsertMany ''aec'' [1, 3] ''bd'' = Inr ''abcde''" by simp
  with d r del cp show ?thesis by simp
qed

section \<open>History engine\<close>

lemmas scene_defs =
  doSceneOp_def Undo_def Redo_def sceneOp_do_def sceneOp_undo_def sceneOp_redo_def
  and_then_def drop_last_def recomputeBounds_def emptySelection_def emptyCollection_def
  emptyObject_def SceneOpAdd_def SceneOpDelete_def SceneOpModify_def in_range_def
  AddPath_def AddBuilding_def AddTextBox_def AddObjects_def DeleteObjects_def
  ModifyObjects_def FullPathIdxs_def AnyPathIdxs_def CopyIdxs_def SwapDeleteMany_def
  SwapInsertMany_def SwapDelete_def SwapInsert_def Range_def HasRedo_def HasUndo_def
  ObjectCollection.truncate_def Let_def

lemma sceneOp_do_frame:
  assumes "sceneOp_do op s = Inr s'"
  shows "\<exists>ps bs ts. s' = s\<lparr>Paths := ps, Buildings := bs, TextBoxes := ts\<rparr>"
  using assms unfolding sceneOp_do_def and_then_def
  by (auto split: if_splits sum.splits)

lemma sceneOp_undo_frame:
  assumes "sceneOp_undo rb op s = Inr (s', sel)"
  shows "\<exists>ps bs ts. s' = s\<lparr>Paths := ps, Buildings := bs, TextBoxes := ts\<rparr>"
  using assms unfolding sceneOp_undo_def and_then_def Let_def
  by (auto split: if_splits sum.splits)

lemma sceneOp_redo_frame:
  assumes "sceneOp_redo rb op s = Inr (s', sel)"
  shows "\<exists>ps bs ts. s' = s\<lparr>Paths := ps, Buildings := bs, TextBoxes := ts\<rparr>"
  using assms unfolding sceneOp_redo_def and_then_def Let_def
  by (auto split: if_splits sum.splits)

lemma doSceneOp_result:
  assumes "doSceneOp s op = Inr s'"
  shows "0 \<le> historyPos s \<and> historyPos s \<le> int (length (history s))
         \<and> history s' = take (nat (historyPos s)) (history s) @ [op]
         \<and> historyPos s' = historyPos s + 1
         \<and> savedHistoryPos s' = savedHistoryPos s
         \<and> Hovered s' = emptyObject"
proof -
  from assms have g: "0 \<le> historyPos s \<and> historyPos s \<le> int (length (history s))"
    by (auto simp: doSceneOp_def split: if_splits)
  with assms obtain s2 where
    d: "sceneOp_do op (s\<lparr>history := take (nat (historyPos s)) (history s)\<rparr>) = Inr s2" and
    r: "s' = s2\<lparr>history := history s2 @ [op], historyPos := historyPos s2 + 1,
                Hovered := emptyObject\<rparr>"
    by (auto simp: doSceneOp_def and_then_def Let_def split: sum.splits)
  from sceneOp_do_frame [OF d] obtain ps bs ts where
    "s2 = s\<lparr>history := take (nat (historyPos s)) (history s)\<rparr>
            \<lparr>Paths := ps, Buildings := bs, TextBoxes := ts\<rparr>" by blast
  with r g show ?thesis by simp
qed

lemma Undo_result:
  assumes "Undo rb s = Inr (True, s', sel)"
  shows "0 < historyPos s \<and> historyPos s \<le> int (length (history s))
         \<and> history s' = history s \<and> historyPos s' = historyPos s - 1
         \<and> savedHistoryPos s' = savedHistoryPos s
         \<and> Hovered s' = emptyObject"
proof -
  from assms have g: "0 < historyPos s" and r: "in_range (historyPos s - 1) (history s)"
    by (auto simp: Undo_def Let_def split: if_splits)
  let ?s2 = "s\<lparr>historyPos := historyPos s - 1, Hovered := emptyObject\<rparr>"
  from assms g r obtain nsel where
    u: "sceneOp_undo rb (history s ! nat (historyPos s - 1)) ?s2 = Inr (s', nsel)"
    by (auto simp: Undo_def Let_def and_then_def split: sum.splits)
  from sceneOp_undo_frame [OF u] obtain ps bs ts where
    "s' = ?s2\<lparr>Paths := ps, Buildings := bs, TextBoxes := ts\<rparr>" by blast
  with g r show ?thesis by (simp add: in_range_def)
qed

lemma Redo_result:
  assumes "Redo rb s = Inr (True, s', sel)"
  shows "0 \<le> historyPos s \<and> historyPos s < int (length (history s))
         \<and> history s' = history s \<and> historyPos s' = historyPos s + 1
         \<and> savedHistoryPos s' = savedHistoryPos s
         \<and> Hovered s' = emptyObject"
proof -
  from assms have r: "in_range (historyPos s) (history s)"
    by (auto simp: Redo_def Let_def split: if_splits)
  let ?s2 = "s\<lparr>historyPos := historyPos s + 1, Hovered := emptyObject\<rparr>"
  from assms r obtain nsel where
    u: "sceneOp_redo rb (history s ! nat (historyPos s)) ?s2 = Inr (s', nsel)"
    by (auto simp: Redo_def Let_def and_then_def split: sum.splits if_splits)
  from sceneOp_redo_frame [OF u] obtain ps bs ts where
    "s' = ?s2\<lparr>Paths := ps, Buildings := bs, TextBoxes := ts\<rparr>" by blast
  with r show ?thesis by (simp add: in_range_def)
qed

lemma Undo_False: "Undo rb s = Inr (False, s', sel) \<Longrightarrow> s' = s"
  by (auto simp: Undo_def Let_def and_then_def split: if_splits sum.splits)

lemma Redo_False: "Redo rb s = Inr (False, s', sel) \<Longrightarrow> s' = s"
  by (auto simp: Redo_def Let_def and_then_def split: if_splits sum.splits)

lemma reachable_historyPos:
  "reachable rb s \<Longrightarrow> 0 \<le> historyPos s \<and> historyPos s \<le> int (length (history s))"
proof (induction rule: reachable.induct)
  case (reach_init s)
  then show ?case by simp
next
  case (reach_do s op s')
  from doSceneOp_result [OF reach_do.hyps(2)] show ?case by (simp add: min_def)
next
  case (reach_undo s b s' sel)
  show ?case
  proof (cases b)
    case True
    with Undo_result [of rb s s' sel] reach_undo show ?thesis by simp
  next
    case False
    with Undo_False [of rb s s' sel] reach_undo show ?thesis by simp
  qed
next
  case (reach_redo s b s' sel)
  show ?case
  proof (cases b)
    case True
    with Redo_result [of rb s s' sel] reach_redo show ?thesis by simp
  next
    case False
    with Redo_False [of rb s s' sel] reach_redo show ?thesis by simp
  qed
next
  case (reach_saved s)
  then show ?case by (simp add: ResetModified_def)
next
  case (reach_hover s h)
  then show ?case by simp
qed

text \<open>
  Claim C6. In every reachable state, also after one or more Undos, a successful
  \<open>doSceneOp\<close> cuts the history at the cursor, so that the undone operations are gone,
  appends the new operation and moves the cursor one step, to the end of the history:
  \<open>HasRedo\<close> is false afterwards.
\<close>

theorem doSceneOp_discards_undone:
  assumes "reachable rb s" and "doSceneOp s op = Inr s'"
  shows "history s' = take (nat (historyPos s)) (history s) @ [op]
         \<and> length (history s') = nat (historyPos s) + 1
         \<and> historyPos s' = historyPos s + 1
         \<and> \<not> HasRedo s'"
proof -
  from reachable_historyPos [OF assms(1)]
  have g: "0 \<le> historyPos s" "historyPos s \<le> int (length (history s))" by simp_all
  from doSceneOp_result [OF assms(2)]
  have h: "history s' = take (nat (historyPos s)) (history s) @ [op]"
    and p: "historyPos s' = historyPos s + 1" by simp_all
  from h g have l: "length (history s') = nat (historyPos s) + 1" by simp
  with p g have "\<not> HasRedo s'" by (simp add: HasRedo_def)
  with h l p show ?thesis by simp
qed

lemma doSceneOp_add_pipe: "doSceneOp example_scene add_pipe = Inr after_add"
  by (simp add: scene_defs example_scene_def add_pipe_def after_add_def)

lemma Undo_after_add:
  "Undo example_bounds after_add = Inr (True, after_undo, Some emptySelection)"
  by (simp add: scene_defs example_scene_def add_pipe_def after_add_def after_undo_def)

lemma doSceneOp_add_lab: "doSceneOp after_undo add_lab = Inr after_lab"
  by (simp add: scene_defs example_scene_def add_pipe_def add_lab_def after_lab_def
      after_undo_def)

lemma reachable_after_undo: "reachable example_bounds after_undo"
proof -
  have "reachable example_bounds example_scene"
    by (rule reach_init) (simp_all add: example_scene_def)
  then have "reachable example_bounds after_add"
    using doSceneOp_add_pipe by (rule reach_do)
  then show ?thesis
    using Undo_after_add by (rule reach_undo)
qed

theorem doSceneOp_discards_undone_witness:
  "HasRedo after_undo \<and> doSceneOp after_undo add_lab = Inr after_lab
   \<and> history after_lab = [add_lab] \<and> historyPos after_lab = 1 \<and> \<not> HasRedo after_lab"
proof -
  have r: "HasRedo after_undo"
    by (simp add: HasRedo_def after_undo_def example_scene_def)
  from doSceneOp_discards_undone [OF reachable_after_undo doSceneOp_add_lab]
  have "history after_lab = take (nat (historyPos after_undo)) (history after_undo) @ [add_lab]"
    and "historyPos after_lab = historyPos after_undo + 1" and "\<not> HasRedo after_lab"
    by simp_all
  with r doSceneOp_add_lab show ?thesis
    by (simp add: after_undo_def example_scene_def)
qed

section \<open>Apply followed by Undo\<close>

lemma assign_each_props:
  "assign_each xs idxs vals = Inr ys \<Longrightarrow>
     length ys = length xs \<and> (\<forall>i \<in> set idxs. in_range i xs)
     \<and> (\<forall>k. int k \<notin> set idxs \<longrightarrow> ys ! k = xs ! k)"
proof (induction xs idxs vals rule: assign_each.induct)
  case (1 xs vals)
  then show ?case by simp
next
  case (2 xs idx idxs)
  then show ?case by simp
next
  case (3 xs idx idxs v vals)
  from "3.prems" have r: "in_range idx xs"
    and a: "assign_each (xs[nat idx := v]) idxs vals = Inr ys"
    by (auto split: if_splits)
  from "3.IH" [OF r a] have
    l: "length ys = length xs" and
    i: "\<forall>i \<in> set idxs. in_range i xs" and
    k: "\<forall>k. int k \<notin> set idxs \<longrightarrow> ys ! k = (xs[nat idx := v]) ! k"
    by (simp_all add: in_range_def)
  have "\<forall>k. int k \<notin> set (idx # idxs) \<longrightarrow> ys ! k = xs ! k"
  proof (intro allI impI)
    fix k assume h: "int k \<notin> set (idx # idxs)"
    then have "k \<noteq> nat idx" using r by (auto simp: in_range_def)
    with h k show "ys ! k = xs ! k" by simp
  qed
  with l i r show ?case by simp
qed

lemma assign_each_restore:
  assumes "length ys = length xs" and "\<forall>i \<in> set idxs. in_range i xs"
    and "\<forall>k < length xs. int k \<notin> set idxs \<longrightarrow> ys ! k = xs ! k"
  shows "assign_each ys idxs (map (\<lambda>i. xs ! nat i) idxs) = Inr xs"
  using assms
proof (induction idxs arbitrary: ys)
  case Nil
  then have "ys = xs" by (intro nth_equalityI) simp_all
  then show ?case by simp
next
  case (Cons i idxs)
  from Cons.prems have r: "in_range i ys" "in_range i xs" by (simp_all add: in_range_def)
  let ?ys = "ys[nat i := xs ! nat i]"
  have k': "\<forall>k < length xs. int k \<notin> set idxs \<longrightarrow> ?ys ! k = xs ! k"
  proof (intro allI impI)
    fix k assume k: "k < length xs" and n: "int k \<notin> set idxs"
    show "?ys ! k = xs ! k"
    proof (cases "k = nat i")
      case True
      with k Cons.prems(1) show ?thesis by simp
    next
      case False
      with r have "int k \<noteq> i" by (auto simp: in_range_def)
      with n k Cons.prems(3) False show ?thesis by simp
    qed
  qed
  have l': "length ?ys = length xs" using Cons.prems(1) by simp
  have i': "\<forall>i \<in> set idxs. in_range i xs" using Cons.prems(2) by simp
  from Cons.IH [OF l' i' k'] r show ?case by simp
qed

lemma assign_each_undo:
  assumes "assign_each xs idxs new = Inr ys" and "CopyIdxs [] xs idxs = Inr old"
  shows "assign_each ys idxs old = Inr xs"
proof -
  from assign_each_props [OF assms(1)] have
    l: "length ys = length xs" and i: "\<forall>i \<in> set idxs. in_range i xs" and
    k: "\<forall>k < length xs. int k \<notin> set idxs \<longrightarrow> ys ! k = xs ! k"
    by simp_all
  from assms(2) i have "old = map (\<lambda>i. xs ! nat i) idxs"
    by (simp add: CopyIdxs_def)
  with assign_each_restore [OF l i k] show ?thesis by simp
qed

lemma SwapDeleteMany_undo:
  assumes "SwapDeleteMany xs idxs = Inr ys" and "CopyIdxs [] xs idxs = Inr old"
    and "distinct idxs"
  shows "SwapInsertMany ys idxs old = Inr xs"
proof -
  from assms(2) have i: "\<forall>i \<in> set idxs. in_range i xs" and
    o: "old = map (\<lambda>i. xs ! nat i) idxs"
    by (auto simp: CopyIdxs_def split: if_splits)
  from SwapDeleteMany_inverse [OF assms(3) i] assms(1) o show ?thesis by auto
qed

lemma drop_last_append: "drop_last (xs @ new) (length new) = Inr xs"
  by (simp add: drop_last_def)

lemma Type_distinct:
  "SceneOpAdd \<noteq> SceneOpDelete" "SceneOpAdd \<noteq> SceneOpModify" "SceneOpDelete \<noteq> SceneOpModify"
  by (simp_all add: SceneOpAdd_def SceneOpDelete_def SceneOpModify_def)

lemma do_then_undo:
  assumes rec: "records_state s op" and d: "sceneOp_do op s = Inr s1"
    and fr: "Paths t = Paths s1" "Buildings t = Buildings s1" "TextBoxes t = TextBoxes s1"
  shows "\<exists>t' sel. sceneOp_undo rb op t = Inr (t', sel)
           \<and> Paths t' = Paths s \<and> Buildings t' = Buildings s \<and> TextBoxes t' = TextBoxes s"
proof -
  consider (add) "Type op = SceneOpAdd" | (del) "Type op = SceneOpDelete"
    | (mod) "Type op = SceneOpModify"
    using rec by (auto simp: records_state_def)
  then show ?thesis
  proof cases
    case add
    with d have "Paths s1 = Paths s @ Paths (New op)"
      "Buildings s1 = Buildings s @ Buildings (New op)"
      "TextBoxes s1 = TextBoxes s @ TextBoxes (New op)"
      by (auto simp: sceneOp_do_def)
    with add fr show ?thesis
      by (simp add: sceneOp_undo_def and_then_def drop_last_append)
  next
    case del
    with rec Type_distinct have
      ds: "distinct (FullPathIdxs (Sel op))" "distinct (BuildingIdxs (Sel op))"
          "distinct (TextBoxIdxs (Sel op))" and
      cp: "CopyIdxs [] (Paths s) (FullPathIdxs (Sel op)) = Inr (Paths (Old op))"
          "CopyIdxs [] (Buildings s) (BuildingIdxs (Sel op)) = Inr (Buildings (Old op))"
          "CopyIdxs [] (TextBoxes s) (TextBoxIdxs (Sel op)) = Inr (TextBoxes (Old op))"
      by (auto simp: records_state_def)
    from d del Type_distinct have
      sd: "SwapDeleteMany (Paths s) (FullPathIdxs (Sel op)) = Inr (Paths s1)"
          "SwapDeleteMany (Buildings s) (BuildingIdxs (Sel op)) = Inr (Buildings s1)"
          "SwapDeleteMany (TextBoxes s) (TextBoxIdxs (Sel op)) = Inr (TextBoxes s1)"
      by (auto simp: sceneOp_do_def and_then_def split: sum.splits)
    from SwapDeleteMany_undo [OF sd(1) cp(1) ds(1)] SwapDeleteMany_undo [OF sd(2) cp(2) ds(2)]
      SwapDeleteMany_undo [OF sd(3) cp(3) ds(3)] del Type_distinct fr
    show ?thesis
      by (simp add: sceneOp_undo_def and_then_def)
  next
    case mod
    with rec Type_distinct have
      cp: "CopyIdxs [] (Paths s) (AnyPathIdxs (Sel op)) = Inr (Paths (Old op))"
          "CopyIdxs [] (Buildings s) (BuildingIdxs (Sel op)) = Inr (Buildings (Old op))"
          "CopyIdxs [] (TextBoxes s) (TextBoxIdxs (Sel op)) = Inr (TextBoxes (Old op))"
      by (auto simp: records_state_def)
    from d mod Type_distinct have
      sd: "assign_each (Paths s) (AnyPathIdxs (Sel op)) (Paths (New op)) = Inr (Paths s1)"
          "assign_each (Buildings s) (BuildingIdxs (Sel op)) (Buildings (New op)) = Inr (Buildings s1)"
          "assign_each (TextBoxes s) (TextBoxIdxs (Sel op)) (TextBoxes (New op)) = Inr (TextBoxes s1)"
      by (auto simp: sceneOp_do_def and_then_def split: sum.splits)
    from assign_each_undo [OF sd(1) cp(1)] assign_each_undo [OF sd(2) cp(2)]
      assign_each_undo [OF sd(3) cp(3)] mod Type_distinct fr
    show ?thesis
      by (simp add: sceneOp_undo_def and_then_def Let_def)
  qed
qed

lemma doSceneOp_do:
  assumes "doSceneOp s op = Inr s'"
  shows "\<exists>s2. sceneOp_do op (s\<lparr>history := take (nat (historyPos s)) (history s)\<rparr>) = Inr s2
           \<and> Paths s' = Paths s2 \<and> Buildings s' = Buildings s2 \<and> TextBoxes s' = TextBoxes s2"
  using assms
  by (auto simp: doSceneOp_def and_then_def Let_def split: if_splits sum.splits)

text \<open>
  Claim C1. For an operation that records the state it is applied to (an Add, or a Delete
  or Modify whose \<open>Old\<close> holds the state's values at the selected indices, the indices of
  a Delete without repetition), a successful \<open>doSceneOp\<close> followed at once by \<open>Undo\<close>
  succeeds and leaves the paths, the buildings and the text boxes exactly as they
  were before, element by element, and the cursor where it was.
\<close>

theorem doSceneOp_then_Undo:
  assumes "records_state s op" and "doSceneOp s op = Inr s1"
  shows "\<exists>s2 sel. Undo rb s1 = Inr (True, s2, Some sel)
           \<and> Paths s2 = Paths s \<and> Buildings s2 = Buildings s \<and> TextBoxes s2 = TextBoxes s
           \<and> historyPos s2 = historyPos s"
proof -
  let ?P = "historyPos s"
  let ?s0 = "s\<lparr>history := take (nat ?P) (history s)\<rparr>"
  from doSceneOp_result [OF assms(2)] have
    g: "0 \<le> ?P" "?P \<le> int (length (history s))" and
    h: "history s1 = take (nat ?P) (history s) @ [op]" and
    p: "historyPos s1 = ?P + 1"
    by simp_all
  from doSceneOp_do [OF assms(2)] obtain sd where
    d: "sceneOp_do op ?s0 = Inr sd" and
    c: "Paths s1 = Paths sd" "Buildings s1 = Buildings sd" "TextBoxes s1 = TextBoxes sd"
    by blast
  have rec: "records_state ?s0 op"
    using assms(1) by (simp add: records_state_def)
  let ?t = "s1\<lparr>historyPos := historyPos s1 - 1, Hovered := emptyObject\<rparr>"
  have "Paths ?t = Paths sd" "Buildings ?t = Buildings sd" "TextBoxes ?t = TextBoxes sd"
    using c by simp_all
  from do_then_undo [OF rec d this, of rb] obtain t' sel where
    u: "sceneOp_undo rb op ?t = Inr (t', sel)" and
    r: "Paths t' = Paths s" "Buildings t' = Buildings s" "TextBoxes t' = TextBoxes s"
    by auto
  have len: "length (take (nat ?P) (history s)) = nat ?P" using g by simp
  have nth: "history s1 ! nat ?P = op"
    using h len by (metis nth_append_length)
  have rng: "in_range ?P (history s1)"
    using g h by (simp add: in_range_def)
  have "Undo rb s1 = Inr (True, t', Some sel)"
    using g p nth rng u by (simp add: Undo_def Let_def and_then_def)
  moreover from sceneOp_undo_frame [OF u] p have "historyPos t' = ?P" by auto
  ultimately show ?thesis using r by blast
qed

lemma doSceneOp_del_op: "doSceneOp example_scene del_op = Inr after_delete"
  by (simp add: scene_defs example_scene_def del_op_def after_delete_def)

lemma records_state_del_op: "records_state example_scene del_op"
  by (simp add: records_state_def scene_defs example_scene_def del_op_def)

lemma Undo_after_delete:
  "Undo example_bounds after_delete = Inr (True, delete_undone, Some (Sel del_op))"
  by (simp add: scene_defs example_scene_def del_op_def after_delete_def delete_undone_def)

theorem doSceneOp_then_Undo_witness:
  "records_state example_scene del_op
   \<and> doSceneOp example_scene del_op = Inr after_delete
   \<and> Buildings after_delete = [''smelter'']
   \<and> Undo example_bounds after_delete = Inr (True, delete_undone, Some (Sel del_op))
   \<and> Paths delete_undone = Paths example_scene
   \<and> Buildings delete_undone = [''miner'', ''smelter'', ''forge'']
   \<and> TextBoxes delete_undone = TextBoxes example_scene"
proof -
  from doSceneOp_then_Undo [OF records_state_del_op doSceneOp_del_op, of example_bounds]
    Undo_after_delete
  have "Paths delete_undone = Paths example_scene"
    "Buildings delete_undone = Buildings example_scene"
    "TextBoxes delete_undone = TextBoxes example_scene"
    by simp_all
  with records_state_del_op doSceneOp_del_op Undo_after_delete show ?thesis
    by (simp add: example_scene_def after_delete_def)
qed

lemma DeleteObjects_records:
  assumes "DeleteObjects s sel = Inr s1"
    and "distinct (FullPathIdxs sel)" "distinct (BuildingIdxs sel)" "distinct (TextBoxIdxs sel)"
  shows "\<exists>op. doSceneOp s op = Inr s1 \<and> records_state s op
           \<and> Type op = SceneOpDelete \<and> Sel op = sel"
  using assms
  by (auto simp: DeleteObjects_def and_then_def records_state_def split: sum.splits)

lemma ModifyObjects_records:
  assumes "ModifyObjects s sel new = Inr s1"
  shows "\<exists>op. doSceneOp s op = Inr s1 \<and> records_state s op
           \<and> Type op = SceneOpModify \<and> Sel op = sel \<and> New op = new"
  using assms
  by (auto simp: ModifyObjects_def and_then_def records_state_def split: sum.splits)

lemma AddObjects_records:
  assumes "AddObjects s col = Inr s1"
  shows "\<exists>op. doSceneOp s op = Inr s1 \<and> records_state s op
           \<and> Type op = SceneOpAdd \<and> New op = col"
  using assms by (auto simp: AddObjects_def records_state_def)

section \<open>The hovered object\<close>


lemma Redo_after_undo:
  "Redo example_bounds after_undo =
     Inr (True, after_redo,
          Some \<lparr>PathIdxs = [\<lparr>Idx = 2, Start = True, End = True\<rparr>], BuildingIdxs = [],
                TextBoxIdxs = [], SelBounds = 1\<rparr>)"
  by (simp add: scene_defs example_scene_def add_pipe_def after_add_def after_undo_def
      after_redo_def example_bounds_def)


section \<open>The selection returned by Redo and Undo\<close>

lemma sceneOp_redo_add:
  assumes "Type op = SceneOpAdd" and "sceneOp_redo rb op s = Inr (s', sel)"
  shows "Paths s' = Paths s @ Paths (New op)
         \<and> Buildings s' = Buildings s @ Buildings (New op)
         \<and> TextBoxes s' = TextBoxes s @ TextBoxes (New op)
         \<and> BuildingIdxs sel = map int [length (Buildings s)..<length (Buildings s')]
         \<and> TextBoxIdxs sel = map int [length (TextBoxes s)..<length (TextBoxes s')]
         \<and> PathIdxs sel = map (\<lambda>i. \<lparr>Idx = int (length (Paths s')) + int i, Start = True, End = True\<rparr>)
                             [0..<length (Paths (New op))]"
proof -
  have up: "\<And>a b. [int a..int a + int b - 1] = map int [a..<a + b]"
  proof -
    fix a b show "[int a..int a + int b - 1] = map int [a..<a + b]"
      by (induction b) (simp_all add: upto_rec2)
  qed
  from assms show ?thesis
    by (auto simp: sceneOp_redo_def Let_def recomputeBounds_def emptySelection_def Range_def up)
qed

lemma sceneOp_redo_add_paths_out_of_range:
  assumes "Type op = SceneOpAdd" and "sceneOp_redo rb op s = Inr (s', sel)"
    and "e \<in> set (PathIdxs sel)"
  shows "\<not> in_range (Idx e) (Paths s')"
  using sceneOp_redo_add [OF assms(1,2)] assms(3) by (auto simp: in_range_def)

text \<open>
  Claim C3 fails on the code for the paths. Redoing an Add appends the objects and
  selects the appended buildings and text boxes by their index ranges, but the path
  indices start at the length the paths have after the append: none of them is an
  index of the paths sequence.
\<close>

theorem Redo_add_path_index_invalid:
  "HasRedo after_undo \<and> Type (history after_undo ! nat (historyPos after_undo)) = SceneOpAdd
   \<and> Redo example_bounds after_undo =
       Inr (True, after_redo,
            Some \<lparr>PathIdxs = [\<lparr>Idx = 2, Start = True, End = True\<rparr>], BuildingIdxs = [],
                  TextBoxIdxs = [], SelBounds = 1\<rparr>)
   \<and> Paths after_redo = [''belt'', ''pipe'']
   \<and> \<not> in_range 2 (Paths after_redo)"
  using Redo_after_undo
  by (simp add: after_redo_def after_add_def after_undo_def example_scene_def add_pipe_def
      HasRedo_def in_range_def SceneOpAdd_def)





section \<open>Hit testing follows the priority order\<close>















section \<open>The version line and the line numbers of the decoder\<close>

























lemma decode_loop_blank: "decode_loop c s ([] # lines) ver no = decode_loop c s lines ver no"
  by simp

lemma ScanLines_header:
  "ScanLines (''#VERSION=0'' @ CHR 0x0A # body) = ''#VERSION=0'' # ScanLines body"
  by (simp add: ScanLines_def dropCR_def)

lemma Sscanf_version_0: "Sscanf_version ''#VERSION=0'' = Inr 0"
  by code_simp

lemma LoadFromText_skips_blank_line:
  "LoadFromText c s (''#VERSION=0'' @ CHR 0x0A # CHR 0x0A # body) =
     LoadFromText c s (''#VERSION=0'' @ CHR 0x0A # body)"
proof -
  have "ScanLines (CHR 0x0A # body) = [] # ScanLines body"
    by (simp add: ScanLines_def dropCR_def)
  then show ?thesis
    using ScanLines_header [of "CHR 0x0A # body"] ScanLines_header [of body]
    by (simp add: LoadFromText_def Sscanf_version_0 decodeText_def)
qed

text \<open>
  Claim C4 fails on the code for a line that follows a blank line. The line counter of
  \<open>decodeText\<close> is not advanced on a blank line, so the unknown class on the third
  physical line of this input is reported with line 2.
\<close>

theorem LoadFromText_blank_line_number:
  assumes "pathDefsIndex c ''foo'' < 0" and "buildingDefsIndex c ''foo'' < 0"
  shows "ScanLines blank_then_unknown = [''#VERSION=0'', [], ''foo'']
         \<and> LoadFromText c s blank_then_unknown =
             (s, Some \<lparr>Msg = msgInvalidClass, Err = None, Line = 2, Version = 0\<rparr>)"
proof -
  have l: "ScanLines blank_then_unknown = [''#VERSION=0'', [], ''foo'']"
    by (simp add: blank_then_unknown_def ScanLines_def dropCR_def)
  have "decode_line c s 0 2 ''foo'' =
          Inl \<lparr>Msg = msgInvalidClass, Err = None, Line = 2, Version = 0\<rparr>"
    using assms by (simp add: decode_line_def Cut_def textboxClass_def)
  then have "decodeText c s [[], ''foo''] 0 =
      (s, Some \<lparr>Msg = msgInvalidClass, Err = None, Line = 2, Version = 0\<rparr>)"
    by (simp add: decodeText_def)
  with l show ?thesis
    by (simp add: LoadFromText_def Sscanf_version_0)
qed

theorem LoadFromText_blank_line_number_witness:
  "LoadFromText no_definitions no_objects blank_then_unknown =
     (no_objects, Some \<lparr>Msg = msgInvalidClass, Err = None, Line = 2, Version = 0\<rparr>)"
proof -
  have "pathDefsIndex no_definitions ''foo'' < 0" "buildingDefsIndex no_definitions ''foo'' < 0"
    by (simp_all add: no_definitions_def)
  from LoadFromText_blank_line_number [OF this, of no_objects] show ?thesis by simp
qed

end
